theory Spec2Isabelle
  imports Main "HOL-Library.Word" "HOL-Library.Sublist"
begin

unbundle bit_operations_syntax

section \<open>The QSPI NOR-flash driver as HOL functions\<close>

text \<open>
  The driver talks to the flash part through the vendor HAL and hands out its results as
  LK status codes. The HAL, the kernel headers and the part header are not among the
  sources, so the model treats them as follows.
  \<^item> Every HAL entry point that touches the controller is one \<^emph>\<open>transaction\<close>. The state
    records the transactions issued so far, in order; the status each one returns is chosen
    by the platform, as an arbitrary function of the history and of the transaction.
  \<^item> The geometry constants of the part header are the fields of a table that every
    function takes as its first argument.
  \<^item> Opcodes, line modes and status-register bits are only compared for equality, so they
    are enumerations carrying the names the source uses.
  \<^item> \<open>event_wait\<close> returns: the model covers the executions in which each awaited
    completion interrupt arrives. The mutex operations of the entry points, whose result
    the source ignores, are not modelled; the one result the source tests
    (in \<open>qspi_flash_init\<close>) is an input of the platform.
  \<^item> Sizes, counts and addresses are natural numbers and an \<open>off_t\<close> is an integer,
    without wrap-around. The source computes in 32 bits (\<open>size_t\<close>, \<open>ssize_t\<close>,
    \<open>uint32_t\<close>) and 64 bits (\<open>off_t\<close>). A trimmed request lies inside the device, and
    a running byte count stays below the trimmed length plus one subsector (section on the
    erase loops), so for a device whose size plus one subsector is below \<open>2 ^ 31\<close>, as
    for the 16 MiB of this part, no value leaves the range of its C type and the two
    arithmetics agree.
\<close>

subsection \<open>Status codes\<close>

text \<open>
  \<open>HAL_StatusTypeDef\<close> is a C enumeration; an object of that type can hold a value
  that no enumerator names, which is what the \<open>default\<close> label of the translator is for.
  \<open>HAL_OTHER n\<close> stands for those values.
\<close>

datatype HAL_StatusTypeDef = HAL_OK | HAL_ERROR | HAL_BUSY | HAL_TIMEOUT | HAL_OTHER nat

datatype status_t =
  NO_ERROR | ERR_GENERIC | ERR_BUSY | ERR_TIMED_OUT | ERR_INVALID_ARGS | ERR_NOT_IMPLEMENTED

text \<open>
  An \<open>ssize_t\<close> result is a byte count or a negative status code. The source tells them
  apart with \<open>< 0\<close>; here the error is the left injection. \<open>NO_ERROR\<close> is the number 0.
\<close>

type_synonym ssize_t = "status_t + nat"

fun ssize_of_status :: "status_t \<Rightarrow> ssize_t" where
  "ssize_of_status NO_ERROR = Inr 0"
| "ssize_of_status e = Inl e"

fun hal_error_to_status :: "HAL_StatusTypeDef \<Rightarrow> status_t" where
  "hal_error_to_status HAL_OK = NO_ERROR"
| "hal_error_to_status HAL_ERROR = ERR_GENERIC"
| "hal_error_to_status HAL_BUSY = ERR_BUSY"
| "hal_error_to_status HAL_TIMEOUT = ERR_TIMED_OUT"
| "hal_error_to_status _ = ERR_GENERIC"

subsection \<open>The part table\<close>

text \<open>
  The constants of \<open>platform/n25q128a.h\<close> that the driver computes with. Sizes are in bytes.
\<close>

record part_table =
  N25Q128A_FLASH_SIZE :: nat
  N25Q128A_SECTOR_SIZE :: nat
  N25Q128A_SUBSECTOR_SIZE :: nat
  N25Q128A_PAGE_SIZE :: nat
  N25Q128A_DUMMY_CYCLES_READ_QUAD :: nat
  N25Q128A_VCR_NB_DUMMY :: nat

datatype instruction =
  WRITE_ENABLE_CMD | READ_STATUS_REG_CMD | READ_VOL_CFG_REG_CMD | WRITE_VOL_CFG_REG_CMD
| RESET_ENABLE_CMD | RESET_MEMORY_CMD | QUAD_INOUT_FAST_READ_CMD | EXT_QUAD_IN_FAST_PROG_CMD
| SUBSECTOR_ERASE_CMD | SECTOR_ERASE_CMD | BULK_ERASE_CMD

datatype sr_bit = N25Q128A_SR_WIP | N25Q128A_SR_WREN

subsection \<open>Command descriptors and transactions\<close>

datatype address_mode = QSPI_ADDRESS_NONE | QSPI_ADDRESS_1_LINE | QSPI_ADDRESS_4_LINES

datatype address_size = QSPI_ADDRESS_24_BITS

datatype data_mode = QSPI_DATA_NONE | QSPI_DATA_1_LINE | QSPI_DATA_4_LINES

text \<open>
  A field the source leaves unassigned is \<open>None\<close>. The fields that hold the same
  enumerator at every call site of the file (instruction mode, alternate bytes, DDR mode,
  DDR hold, SIOO mode, match mode, automatic stop) are left out.
\<close>

record QSPI_CommandTypeDef =
  Instruction :: instruction
  AddressMode :: address_mode
  AddressSize :: "address_size option"
  Address :: "nat option"
  DataMode :: data_mode
  NbData :: "nat option"
  DummyCycles :: nat

record QSPI_AutoPollingTypeDef =
  Match :: "sr_bit set"
  Mask :: "sr_bit set"
  StatusBytesSize :: nat
  Interval :: nat

record QSPI_InitTypeDef =
  ClockPrescaler :: nat
  FifoThreshold :: nat
  FlashSize :: nat

text \<open>
  A transmit carries the buffer the pointer designates; how many of its bytes go out is
  the \<open>NbData\<close> of the command before it.
\<close>

datatype txn =
  HAL_QSPI_DeInit
| HAL_QSPI_Init QSPI_InitTypeDef
| HAL_QSPI_Command QSPI_CommandTypeDef
| HAL_QSPI_Command_IT QSPI_CommandTypeDef
| HAL_QSPI_AutoPolling QSPI_CommandTypeDef QSPI_AutoPollingTypeDef
| HAL_QSPI_AutoPolling_IT QSPI_CommandTypeDef QSPI_AutoPollingTypeDef
| HAL_QSPI_Transmit "8 word list"
| HAL_QSPI_Transmit_IT "8 word list"
| HAL_QSPI_Receive
| HAL_QSPI_Receive_IT

subsection \<open>The block-device descriptor\<close>

record bio_erase_geometry_info_t =
  start :: nat
  size_geo :: nat
  erase_size :: nat
  erase_shift :: nat

record bdev_t =
  name :: string
  block_size :: nat
  block_count :: nat
  total_size :: nat
  geometry :: "bio_erase_geometry_info_t list"
  erase_byte :: "8 word"

subsection \<open>Platform and driver state\<close>

record platform =
  hal_status :: "txn list \<Rightarrow> txn \<Rightarrow> HAL_StatusTypeDef"
  hal_rx_byte :: "txn list \<Rightarrow> 8 word"
  mutex_acquire_status :: status_t

record qspi_state =
  trace :: "txn list"
  bio_devices :: "bdev_t list"

definition hal :: "platform \<Rightarrow> txn \<Rightarrow> qspi_state \<Rightarrow> HAL_StatusTypeDef \<times> qspi_state" where
  "hal pf x s = (hal_status pf (trace s) x, s\<lparr>trace := trace s @ [x]\<rparr>)"

text \<open>The three interrupt-driven wrappers: start the transfer, wait for its event.\<close>

definition qspi_cmd ::
  "platform \<Rightarrow> QSPI_CommandTypeDef \<Rightarrow> qspi_state \<Rightarrow> HAL_StatusTypeDef \<times> qspi_state" where
  "qspi_cmd pf s_command s = hal pf (HAL_QSPI_Command_IT s_command) s"

definition qspi_tx ::
  "platform \<Rightarrow> 8 word list \<Rightarrow> qspi_state \<Rightarrow> HAL_StatusTypeDef \<times> qspi_state" where
  "qspi_tx pf buf s = hal pf (HAL_QSPI_Transmit_IT buf) s"

definition qspi_rx :: "platform \<Rightarrow> qspi_state \<Rightarrow> HAL_StatusTypeDef \<times> qspi_state" where
  "qspi_rx pf s = hal pf HAL_QSPI_Receive_IT s"

subsection \<open>Write enable and memory-ready polling\<close>

definition write_enable_cmd :: QSPI_CommandTypeDef where
  "write_enable_cmd =
     \<lparr>Instruction = WRITE_ENABLE_CMD, AddressMode = QSPI_ADDRESS_NONE, AddressSize = None,
      Address = None, DataMode = QSPI_DATA_NONE, NbData = None, DummyCycles = 0\<rparr>"

definition write_enable_poll_cfg :: QSPI_AutoPollingTypeDef where
  "write_enable_poll_cfg =
     \<lparr>Match = {N25Q128A_SR_WREN}, Mask = {N25Q128A_SR_WREN}, StatusBytesSize = 1,
      Interval = 0x10\<rparr>"

definition qspi_write_enable_unsafe :: "platform \<Rightarrow> qspi_state \<Rightarrow> status_t \<times> qspi_state" where
  "qspi_write_enable_unsafe pf s =
     (let s_command = write_enable_cmd in
      case hal pf (HAL_QSPI_Command s_command) s of (status, s1) \<Rightarrow>
        if status \<noteq> HAL_OK then (hal_error_to_status status, s1)
        else
          let s_config = write_enable_poll_cfg;
              s_command = s_command\<lparr>Instruction := READ_STATUS_REG_CMD,
                                     DataMode := QSPI_DATA_1_LINE\<rparr>
          in case hal pf (HAL_QSPI_AutoPolling s_command s_config) s1 of (status, s2) \<Rightarrow>
            if status \<noteq> HAL_OK then (hal_error_to_status status, s2)
            else (NO_ERROR, s2))"

definition mem_ready_cmd :: QSPI_CommandTypeDef where
  "mem_ready_cmd =
     \<lparr>Instruction = READ_STATUS_REG_CMD, AddressMode = QSPI_ADDRESS_NONE, AddressSize = None,
      Address = None, DataMode = QSPI_DATA_1_LINE, NbData = None, DummyCycles = 0\<rparr>"

definition mem_ready_poll_cfg :: QSPI_AutoPollingTypeDef where
  "mem_ready_poll_cfg =
     \<lparr>Match = {}, Mask = {N25Q128A_SR_WIP}, StatusBytesSize = 1, Interval = 0x10\<rparr>"

definition qspi_auto_polling_mem_ready_unsafe ::
  "platform \<Rightarrow> qspi_state \<Rightarrow> status_t \<times> qspi_state" where
  "qspi_auto_polling_mem_ready_unsafe pf s =
     (case hal pf (HAL_QSPI_AutoPolling_IT mem_ready_cmd mem_ready_poll_cfg) s of
        (status, s1) \<Rightarrow>
          if status \<noteq> HAL_OK then (hal_error_to_status status, s1) else (NO_ERROR, s1))"

subsection \<open>Page program\<close>

text \<open>
  Modelled from the spec: the macro \<open>IS_ALIGNED\<close> comes from a kernel header that is not
  among the sources. The spec reads the test as "\<open>address\<close> is a multiple of the page
  size".
\<close>

definition IS_ALIGNED :: "nat \<Rightarrow> nat \<Rightarrow> bool" where
  "IS_ALIGNED a b \<longleftrightarrow> a mod b = 0"

definition page_program_cmd :: "part_table \<Rightarrow> nat \<Rightarrow> QSPI_CommandTypeDef" where
  "page_program_cmd p addr =
     \<lparr>Instruction = EXT_QUAD_IN_FAST_PROG_CMD, AddressMode = QSPI_ADDRESS_4_LINES,
      AddressSize = Some QSPI_ADDRESS_24_BITS, Address = Some addr,
      DataMode = QSPI_DATA_4_LINES, NbData = Some (N25Q128A_PAGE_SIZE p), DummyCycles = 0\<rparr>"

definition qspi_write_page_unsafe ::
  "part_table \<Rightarrow> platform \<Rightarrow> nat \<Rightarrow> 8 word list \<Rightarrow> qspi_state \<Rightarrow> ssize_t \<times> qspi_state" where
  "qspi_write_page_unsafe p pf addr data s =
     (if \<not> IS_ALIGNED addr (N25Q128A_PAGE_SIZE p) then (ssize_of_status ERR_INVALID_ARGS, s)
      else
        let s_command = page_program_cmd p addr in
        case qspi_write_enable_unsafe pf s of (write_enable_result, s1) \<Rightarrow>
          if write_enable_result \<noteq> NO_ERROR then (ssize_of_status write_enable_result, s1)
          else case hal pf (HAL_QSPI_Command s_command) s1 of (status, s2) \<Rightarrow>
            if status \<noteq> HAL_OK then (ssize_of_status (hal_error_to_status status), s2)
            else case qspi_tx pf data s2 of (status, s3) \<Rightarrow>
              if status \<noteq> HAL_OK then (ssize_of_status (hal_error_to_status status), s3)
              else case qspi_auto_polling_mem_ready_unsafe pf s3 of
                (auto_polling_mem_ready_result, s4) \<Rightarrow>
                  if auto_polling_mem_ready_result \<noteq> NO_ERROR
                  then (ssize_of_status auto_polling_mem_ready_result, s4)
                  else (Inr (N25Q128A_PAGE_SIZE p), s4))"

subsection \<open>Erasing one chunk\<close>

definition erase_cmd_of ::
  "instruction \<Rightarrow> address_mode \<Rightarrow> nat \<Rightarrow> QSPI_CommandTypeDef" where
  "erase_cmd_of instr mode block_addr =
     \<lparr>Instruction = instr, AddressMode = mode, AddressSize = Some QSPI_ADDRESS_24_BITS,
      Address = Some block_addr, DataMode = QSPI_DATA_NONE, NbData = None, DummyCycles = 0\<rparr>"

text \<open>The \<open>switch\<close> of \<open>qspi_erase\<close>: bytes erased and address mode, or the default label.\<close>

fun erase_switch :: "part_table \<Rightarrow> instruction \<Rightarrow> (nat \<times> address_mode) option" where
  "erase_switch p SUBSECTOR_ERASE_CMD = Some (N25Q128A_SUBSECTOR_SIZE p, QSPI_ADDRESS_1_LINE)"
| "erase_switch p SECTOR_ERASE_CMD = Some (N25Q128A_SECTOR_SIZE p, QSPI_ADDRESS_1_LINE)"
| "erase_switch p BULK_ERASE_CMD = Some (N25Q128A_FLASH_SIZE p, QSPI_ADDRESS_NONE)"
| "erase_switch p _ = None"

definition qspi_erase ::
  "part_table \<Rightarrow> platform \<Rightarrow> nat \<Rightarrow> instruction \<Rightarrow> qspi_state \<Rightarrow> ssize_t \<times> qspi_state" where
  "qspi_erase p pf block_addr instr s =
     (if instr = BULK_ERASE_CMD \<and> block_addr \<noteq> 0 then (ssize_of_status ERR_INVALID_ARGS, s)
      else case erase_switch p instr of
        None \<Rightarrow> (ssize_of_status ERR_INVALID_ARGS, s)
      | Some (num_erased_bytes, mode) \<Rightarrow>
          let erase_cmd = erase_cmd_of instr mode block_addr in
          case qspi_write_enable_unsafe pf s of (qspi_write_enable_result, s1) \<Rightarrow>
            if qspi_write_enable_result \<noteq> NO_ERROR
            then (ssize_of_status qspi_write_enable_result, s1)
            else case qspi_cmd pf erase_cmd s1 of (status, s2) \<Rightarrow>
              if status \<noteq> HAL_OK then (ssize_of_status ERR_GENERIC, s2)
              else case qspi_auto_polling_mem_ready_unsafe pf s2 of
                (auto_polling_mem_ready_result, s3) \<Rightarrow>
                  if auto_polling_mem_ready_result \<noteq> NO_ERROR
                  then (ssize_of_status auto_polling_mem_ready_result, s3)
                  else (Inr num_erased_bytes, s3))"

definition qspi_bulk_erase :: "part_table \<Rightarrow> platform \<Rightarrow> qspi_state \<Rightarrow> ssize_t \<times> qspi_state" where
  "qspi_bulk_erase p pf s = qspi_erase p pf 0 BULK_ERASE_CMD s"

definition qspi_erase_sector ::
  "part_table \<Rightarrow> platform \<Rightarrow> nat \<Rightarrow> qspi_state \<Rightarrow> ssize_t \<times> qspi_state" where
  "qspi_erase_sector p pf block_addr s = qspi_erase p pf block_addr SECTOR_ERASE_CMD s"

definition qspi_erase_subsector ::
  "part_table \<Rightarrow> platform \<Rightarrow> nat \<Rightarrow> qspi_state \<Rightarrow> ssize_t \<times> qspi_state" where
  "qspi_erase_subsector p pf block_addr s = qspi_erase p pf block_addr SUBSECTOR_ERASE_CMD s"

subsection \<open>Range trimming and registration (block-I/O subsystem)\<close>

text \<open>
  Modelled from the spec: \<open>bio_trim_range\<close> and \<open>bio_trim_block_range\<close> belong to the
  block-I/O library, which is not among the sources. They "clamp a byte-range or
  block-range request to the device's valid extent, returning zero length when the request
  is entirely out of range".
\<close>

definition bio_trim_range :: "bdev_t \<Rightarrow> int \<Rightarrow> nat \<Rightarrow> nat" where
  "bio_trim_range dev offset len =
     (if offset < 0 \<or> int (total_size dev) \<le> offset then 0
      else if int (total_size dev) < offset + int len then total_size dev - nat offset
      else len)"

definition bio_trim_block_range :: "bdev_t \<Rightarrow> nat \<Rightarrow> nat \<Rightarrow> nat" where
  "bio_trim_block_range dev block count =
     (if block_count dev \<le> block then 0
      else if block_count dev < block + count then block_count dev - block
      else count)"

text \<open>
  Modelled from the spec: \<open>bio_initialize_bdev\<close> and \<open>bio_register_device\<close> are missing
  with the same library. The first fills "a registration record (name, block size, block
  count, erase-geometry)", whose extent is block size times block count; the second adds
  the record to the registered devices.
\<close>

definition bio_initialize_bdev ::
  "string \<Rightarrow> nat \<Rightarrow> nat \<Rightarrow> bio_erase_geometry_info_t list \<Rightarrow> bdev_t" where
  "bio_initialize_bdev nm bsize bcount geo =
     \<lparr>name = nm, block_size = bsize, block_count = bcount, total_size = bsize * bcount,
      geometry = geo, erase_byte = 0\<rparr>"

definition bio_register_device :: "bdev_t \<Rightarrow> qspi_state \<Rightarrow> qspi_state" where
  "bio_register_device dev s = s\<lparr>bio_devices := bio_devices s @ [dev]\<rparr>"

text \<open>
  Modelled from the spec: \<open>log2_uint\<close> (pow2.h), \<open>POSITION_VAL\<close> and \<open>MODIFY_REG\<close>
  (vendor headers) are not among the sources. \<open>log2_uint\<close> is the integer base-2 logarithm,
  0 at 0; that is what makes \<open>erase_shift\<close> the shift of the erase unit ("erase-unit
  size/shift"). \<open>POSITION_VAL\<close> is the index of the lowest set bit of a 32-bit value, and
  \<open>MODIFY_REG\<close> clears the bits of a mask in a register and sets the given ones.
\<close>

fun log2_uint :: "nat \<Rightarrow> nat" where
  "log2_uint n = (if n < 2 then 0 else Suc (log2_uint (n div 2)))"

fun POSITION_VAL :: "nat \<Rightarrow> nat" where
  "POSITION_VAL n = (if n = 0 then 32 else if odd n then 0 else Suc (POSITION_VAL (n div 2)))"

declare log2_uint.simps [simp del] POSITION_VAL.simps [simp del]

definition MODIFY_REG :: "8 word \<Rightarrow> 32 word \<Rightarrow> 32 word \<Rightarrow> 8 word" where
  "MODIFY_REG reg clearmask setmask = ucast ((ucast reg AND NOT clearmask) OR setmask)"

subsection \<open>Read\<close>

definition read_cmd :: "part_table \<Rightarrow> int \<Rightarrow> nat \<Rightarrow> QSPI_CommandTypeDef" where
  "read_cmd p offset len =
     \<lparr>Instruction = QUAD_INOUT_FAST_READ_CMD, AddressMode = QSPI_ADDRESS_4_LINES,
      AddressSize = Some QSPI_ADDRESS_24_BITS, Address = Some (nat offset),
      DataMode = QSPI_DATA_4_LINES, NbData = Some len,
      DummyCycles = N25Q128A_DUMMY_CYCLES_READ_QUAD p\<rparr>"

definition spiflash_bdev_read ::
  "part_table \<Rightarrow> platform \<Rightarrow> bdev_t \<Rightarrow> int \<Rightarrow> nat \<Rightarrow> qspi_state \<Rightarrow> ssize_t \<times> qspi_state" where
  "spiflash_bdev_read p pf device offset len s =
     (let len = bio_trim_range device offset len in
      if len = 0 then (Inr 0, s)
      else
        let s_command = read_cmd p offset len;
            retcode = Inr len
        in case hal pf (HAL_QSPI_Command s_command) s of (status, s1) \<Rightarrow>
          if status \<noteq> HAL_OK then (ssize_of_status (hal_error_to_status status), s1)
          else case qspi_rx pf s1 of (status, s2) \<Rightarrow>
            if status \<noteq> HAL_OK then (ssize_of_status (hal_error_to_status status), s2)
            else (retcode, s2))"

subsection \<open>Block write\<close>

text \<open>The \<open>for\<close> loop of \<open>spiflash_bdev_write_block\<close>, by recursion on \<open>count\<close>.\<close>

fun write_block_loop ::
  "part_table \<Rightarrow> platform \<Rightarrow> nat \<Rightarrow> nat \<Rightarrow> 8 word list \<Rightarrow> nat \<Rightarrow> qspi_state
   \<Rightarrow> ssize_t \<times> qspi_state" where
  "write_block_loop p pf 0 block buf total_bytes_written s = (Inr total_bytes_written, s)"
| "write_block_loop p pf (Suc count) block buf total_bytes_written s =
     (case qspi_write_page_unsafe p pf (block * N25Q128A_PAGE_SIZE p) buf s of
        (Inl e, s') \<Rightarrow> (Inl e, s')
      | (Inr bytes_written, s') \<Rightarrow>
          write_block_loop p pf count (block + 1) (drop (N25Q128A_PAGE_SIZE p) buf)
            (total_bytes_written + bytes_written) s')"

definition spiflash_bdev_write_block ::
  "part_table \<Rightarrow> platform \<Rightarrow> bdev_t \<Rightarrow> 8 word list \<Rightarrow> nat \<Rightarrow> nat \<Rightarrow> qspi_state
   \<Rightarrow> ssize_t \<times> qspi_state" where
  "spiflash_bdev_write_block p pf device buf block count s =
     (let count = bio_trim_block_range device block count in
      if count = 0 then (Inr 0, s)
      else write_block_loop p pf count block buf 0 s)"

subsection \<open>Range erase\<close>

text \<open>
  The two \<open>while\<close> loops. Each adds what \<open>qspi_erase\<close> returns, so with a sector or
  subsector size of 0 it would not end: the loops are partial functions, \<open>None\<close> meaning
  that the loop does not return.
\<close>

partial_function (option) erase_sectors ::
  "part_table \<Rightarrow> platform \<Rightarrow> nat \<Rightarrow> nat \<Rightarrow> nat \<Rightarrow> qspi_state
   \<Rightarrow> ((status_t + nat \<times> nat) \<times> qspi_state) option" where
  "erase_sectors p pf len total_erased offset s =
     (if int (N25Q128A_SECTOR_SIZE p) \<le> int len - int total_erased then
        (case qspi_erase_sector p pf offset s of
           (Inl e, s') \<Rightarrow> Some (Inl e, s')
         | (Inr erased, s') \<Rightarrow>
             erase_sectors p pf len (total_erased + erased) (offset + erased) s')
      else Some (Inr (total_erased, offset), s))"

partial_function (option) erase_subsectors ::
  "part_table \<Rightarrow> platform \<Rightarrow> nat \<Rightarrow> nat \<Rightarrow> nat \<Rightarrow> qspi_state
   \<Rightarrow> (ssize_t \<times> qspi_state) option" where
  "erase_subsectors p pf len total_erased offset s =
     (if total_erased < len then
        (case qspi_erase_subsector p pf offset s of
           (Inl e, s') \<Rightarrow> Some (Inl e, s')
         | (Inr erased, s') \<Rightarrow>
             erase_subsectors p pf len (total_erased + erased) (offset + erased) s')
      else Some (Inr total_erased, s))"

definition spiflash_bdev_erase ::
  "part_table \<Rightarrow> platform \<Rightarrow> bdev_t \<Rightarrow> int \<Rightarrow> nat \<Rightarrow> qspi_state
   \<Rightarrow> (ssize_t \<times> qspi_state) option" where
  "spiflash_bdev_erase p pf device offset len s =
     (let len = bio_trim_range device offset len in
      if len = 0 then Some (Inr 0, s)
      else if len = N25Q128A_FLASH_SIZE p \<and> offset = 0 then Some (qspi_bulk_erase p pf s)
      else case erase_sectors p pf len 0 (nat offset) s of
        None \<Rightarrow> None
      | Some (Inl e, s1) \<Rightarrow> Some (Inl e, s1)
      | Some (Inr (total_erased, offset1), s1) \<Rightarrow>
          erase_subsectors p pf len total_erased offset1 s1)"

subsection \<open>Initialisation\<close>

definition reset_enable_cmd :: QSPI_CommandTypeDef where
  "reset_enable_cmd =
     \<lparr>Instruction = RESET_ENABLE_CMD, AddressMode = QSPI_ADDRESS_NONE, AddressSize = None,
      Address = None, DataMode = QSPI_DATA_NONE, NbData = None, DummyCycles = 0\<rparr>"

text \<open>
  \<open>qspi_reset_memory_unsafe\<close> stores the \<open>status_t\<close> of the polling helper in its
  \<open>HAL_StatusTypeDef\<close> variable and translates it once more. A negative status code
  is none of the HAL's enumerators.
\<close>

fun status_as_hal :: "status_t \<Rightarrow> HAL_StatusTypeDef" where
  "status_as_hal NO_ERROR = HAL_OK"
| "status_as_hal _ = HAL_OTHER 0"

definition qspi_reset_memory_unsafe :: "platform \<Rightarrow> qspi_state \<Rightarrow> status_t \<times> qspi_state" where
  "qspi_reset_memory_unsafe pf s =
     (let s_command = reset_enable_cmd in
      case qspi_cmd pf s_command s of (status, s1) \<Rightarrow>
        if status \<noteq> HAL_OK then (hal_error_to_status status, s1)
        else
          let s_command = s_command\<lparr>Instruction := RESET_MEMORY_CMD\<rparr> in
          case qspi_cmd pf s_command s1 of (status, s2) \<Rightarrow>
            if status \<noteq> HAL_OK then (hal_error_to_status status, s2)
            else case qspi_auto_polling_mem_ready_unsafe pf s2 of (polled, s3) \<Rightarrow>
              let status = status_as_hal polled in
              if polled \<noteq> NO_ERROR then (hal_error_to_status status, s3)
              else (NO_ERROR, s3))"

definition read_vol_cfg_cmd :: QSPI_CommandTypeDef where
  "read_vol_cfg_cmd =
     \<lparr>Instruction = READ_VOL_CFG_REG_CMD, AddressMode = QSPI_ADDRESS_NONE, AddressSize = None,
      Address = None, DataMode = QSPI_DATA_1_LINE, NbData = Some 1, DummyCycles = 0\<rparr>"

definition qspi_dummy_cycles_cfg_unsafe ::
  "part_table \<Rightarrow> platform \<Rightarrow> qspi_state \<Rightarrow> status_t \<times> qspi_state" where
  "qspi_dummy_cycles_cfg_unsafe p pf s =
     (let s_command = read_vol_cfg_cmd in
      case hal pf (HAL_QSPI_Command s_command) s of (status, s1) \<Rightarrow>
        if status \<noteq> HAL_OK then (hal_error_to_status status, s1)
        else case hal pf HAL_QSPI_Receive s1 of (status, s2) \<Rightarrow>
          let reg = hal_rx_byte pf (trace s2) in
          if status \<noteq> HAL_OK then (hal_error_to_status status, s2)
          else case qspi_write_enable_unsafe pf s2 of (status, s3) \<Rightarrow>
            if status \<noteq> NO_ERROR then (status, s3)
            else
              let s_command = s_command\<lparr>Instruction := WRITE_VOL_CFG_REG_CMD\<rparr>;
                  reg = MODIFY_REG reg (of_nat (N25Q128A_VCR_NB_DUMMY p))
                          (push_bit (POSITION_VAL (N25Q128A_VCR_NB_DUMMY p))
                             (of_nat (N25Q128A_DUMMY_CYCLES_READ_QUAD p)))
              in case hal pf (HAL_QSPI_Command s_command) s3 of (status, s4) \<Rightarrow>
                if status \<noteq> HAL_OK then (hal_error_to_status status, s4)
                else case hal pf (HAL_QSPI_Transmit [reg]) s4 of (status, s5) \<Rightarrow>
                  if status \<noteq> HAL_OK then (hal_error_to_status status, s5)
                  else (NO_ERROR, s5))"

definition device_name :: string where
  "device_name = ''qspi-flash''"

text \<open>
  The label \<open>err\<close> of \<open>qspi_flash_init\<close>: every path that has taken the mutex ends
  here, with its \<open>result\<close>; the label releases the mutex and returns \<open>NO_ERROR\<close>.
\<close>

definition init_err :: "status_t \<Rightarrow> qspi_state \<Rightarrow> status_t \<times> qspi_state" where
  "init_err result s = (NO_ERROR, s)"

definition qspi_flash_init :: "part_table \<Rightarrow> platform \<Rightarrow> qspi_state \<Rightarrow> status_t \<times> qspi_state" where
  "qspi_flash_init p pf s =
     (let result = mutex_acquire_status pf in
      if result \<noteq> NO_ERROR then (result, s)
      else case hal pf HAL_QSPI_DeInit s of (status, s1) \<Rightarrow>
        if status \<noteq> HAL_OK then init_err (hal_error_to_status status) s1
        else
          let init = \<lparr>ClockPrescaler = 1, FifoThreshold = 4,
                      FlashSize = POSITION_VAL (N25Q128A_FLASH_SIZE p) - 1\<rparr>
          in case hal pf (HAL_QSPI_Init init) s1 of (status, s2) \<Rightarrow>
            if status \<noteq> HAL_OK then init_err (hal_error_to_status status) s2
            else case qspi_reset_memory_unsafe pf s2 of (result, s3) \<Rightarrow>
              if result \<noteq> NO_ERROR then init_err result s3
              else case qspi_dummy_cycles_cfg_unsafe p pf s3 of (result, s4) \<Rightarrow>
                if result \<noteq> NO_ERROR then init_err result s4
                else
                  let geo = \<lparr>start = 0, size_geo = N25Q128A_FLASH_SIZE p,
                             erase_size = log2_uint (N25Q128A_SUBSECTOR_SIZE p),
                             erase_shift = log2_uint (N25Q128A_SUBSECTOR_SIZE p)\<rparr>;
                      qspi_flash_device =
                        bio_initialize_bdev device_name (N25Q128A_PAGE_SIZE p)
                          (N25Q128A_FLASH_SIZE p div N25Q128A_PAGE_SIZE p) [geo];
                      qspi_flash_device = qspi_flash_device\<lparr>erase_byte := 0xff\<rparr>
                  in init_err result (bio_register_device qspi_flash_device s4))"

section \<open>What the specification expects\<close>

text \<open>A platform on which every transaction reports \<open>HAL_OK\<close>.\<close>

definition all_ok :: "platform \<Rightarrow> bool" where
  "all_ok pf \<longleftrightarrow> (\<forall>t x. hal_status pf t x = HAL_OK)"

text \<open>
  The write-enable handshake: the write-enable instruction, then an automatic poll of the
  status register until the write-enable latch is set.
\<close>

definition write_enable_txns :: "txn list" where
  "write_enable_txns =
     [HAL_QSPI_Command
        \<lparr>Instruction = WRITE_ENABLE_CMD, AddressMode = QSPI_ADDRESS_NONE, AddressSize = None,
         Address = None, DataMode = QSPI_DATA_NONE, NbData = None, DummyCycles = 0\<rparr>,
      HAL_QSPI_AutoPolling
        \<lparr>Instruction = READ_STATUS_REG_CMD, AddressMode = QSPI_ADDRESS_NONE, AddressSize = None,
         Address = None, DataMode = QSPI_DATA_1_LINE, NbData = None, DummyCycles = 0\<rparr>
        \<lparr>Match = {N25Q128A_SR_WREN}, Mask = {N25Q128A_SR_WREN}, StatusBytesSize = 1,
         Interval = 16\<rparr>]"

text \<open>
  The automatic poll of the status register until write-in-progress reads 0, started in
  interrupt mode.
\<close>

definition mem_ready_txn :: txn where
  "mem_ready_txn =
     HAL_QSPI_AutoPolling_IT
       \<lparr>Instruction = READ_STATUS_REG_CMD, AddressMode = QSPI_ADDRESS_NONE, AddressSize = None,
        Address = None, DataMode = QSPI_DATA_1_LINE, NbData = None, DummyCycles = 0\<rparr>
       \<lparr>Match = {}, Mask = {N25Q128A_SR_WIP}, StatusBytesSize = 1, Interval = 16\<rparr>"

text \<open>The transactions of one page program, in order.\<close>

definition write_page_txns :: "part_table \<Rightarrow> nat \<Rightarrow> 8 word list \<Rightarrow> txn list" where
  "write_page_txns p addr data =
     write_enable_txns @
     [HAL_QSPI_Command
        \<lparr>Instruction = EXT_QUAD_IN_FAST_PROG_CMD, AddressMode = QSPI_ADDRESS_4_LINES,
         AddressSize = Some QSPI_ADDRESS_24_BITS, Address = Some addr,
         DataMode = QSPI_DATA_4_LINES, NbData = Some (N25Q128A_PAGE_SIZE p), DummyCycles = 0\<rparr>,
      HAL_QSPI_Transmit_IT data,
      mem_ready_txn]"

text \<open>
  The transactions of one erase chunk: handshake, the erase instruction (bulk without an
  address, the others with a single-line 24-bit address), poll.
\<close>

definition erase_chunk_txns :: "instruction \<times> nat \<Rightarrow> txn list" where
  "erase_chunk_txns c =
     write_enable_txns @
     [HAL_QSPI_Command_IT
        \<lparr>Instruction = fst c,
         AddressMode = (if fst c = BULK_ERASE_CMD then QSPI_ADDRESS_NONE else QSPI_ADDRESS_1_LINE),
         AddressSize = Some QSPI_ADDRESS_24_BITS, Address = Some (snd c),
         DataMode = QSPI_DATA_NONE, NbData = None, DummyCycles = 0\<rparr>,
      mem_ready_txn]"

text \<open>
  The chunks the spec asks for, as (instruction, address) pairs: one bulk erase for the
  whole device; otherwise as many sectors as fit into the length, at successive offsets,
  then subsectors for what is left.
\<close>

definition erase_plan :: "part_table \<Rightarrow> nat \<Rightarrow> nat \<Rightarrow> (instruction \<times> nat) list" where
  "erase_plan p offset len =
     (if len = N25Q128A_FLASH_SIZE p \<and> offset = 0 then [(BULK_ERASE_CMD, 0)]
      else
        let S = N25Q128A_SECTOR_SIZE p; U = N25Q128A_SUBSECTOR_SIZE p;
            k = len div S; m = (len - k * S + U - 1) div U
        in map (\<lambda>i. (SECTOR_ERASE_CMD, offset + i * S)) [0..<k] @
           map (\<lambda>j. (SUBSECTOR_ERASE_CMD, offset + k * S + j * U)) [0..<m])"

text \<open>The two runs of such a plan: \<open>k\<close> sectors, or \<open>k\<close> subsectors, from \<open>off\<close> on.\<close>

definition sector_chunks :: "part_table \<Rightarrow> nat \<Rightarrow> nat \<Rightarrow> (instruction \<times> nat) list" where
  "sector_chunks p off k =
     map (\<lambda>i. (SECTOR_ERASE_CMD, off + i * N25Q128A_SECTOR_SIZE p)) [0..<k]"

definition subsector_chunks :: "part_table \<Rightarrow> nat \<Rightarrow> nat \<Rightarrow> (instruction \<times> nat) list" where
  "subsector_chunks p off k =
     map (\<lambda>i. (SUBSECTOR_ERASE_CMD, off + i * N25Q128A_SUBSECTOR_SIZE p)) [0..<k]"

fun chunk_bytes :: "part_table \<Rightarrow> instruction \<times> nat \<Rightarrow> nat" where
  "chunk_bytes p (instr, addr) = (case erase_switch p instr of Some (n, m) \<Rightarrow> n | None \<Rightarrow> 0)"

text \<open>The transactions of the pages \<open>block\<close>, \<open>block + 1\<close>, ... of a block write.\<close>

definition write_block_txns :: "part_table \<Rightarrow> nat \<Rightarrow> 8 word list \<Rightarrow> nat \<Rightarrow> txn list" where
  "write_block_txns p block buf n =
     concat (map (\<lambda>i. write_page_txns p ((block + i) * N25Q128A_PAGE_SIZE p)
                         (drop (i * N25Q128A_PAGE_SIZE p) buf)) [0..<n])"

subsection \<open>Instances for evaluation\<close>

text \<open>
  Modelled from the spec: the part header is not among the sources and the spec gives no
  numbers. The theorems below hold for every table; this one serves to evaluate them and
  has the geometry of the 128-Mbit part: 16 MiB in sectors of 64 KiB, subsectors of 4 KiB
  and pages of 256 bytes.
\<close>

definition n25q128a :: part_table where
  "n25q128a =
     \<lparr>N25Q128A_FLASH_SIZE = 0x1000000, N25Q128A_SECTOR_SIZE = 0x10000,
      N25Q128A_SUBSECTOR_SIZE = 0x1000, N25Q128A_PAGE_SIZE = 0x100,
      N25Q128A_DUMMY_CYCLES_READ_QUAD = 10, N25Q128A_VCR_NB_DUMMY = 0xF0\<rparr>"

definition ok_platform :: platform where
  "ok_platform = \<lparr>hal_status = (\<lambda>t x. HAL_OK), hal_rx_byte = (\<lambda>t. 0),
                  mutex_acquire_status = NO_ERROR\<rparr>"

text \<open>A platform whose transaction number \<open>k\<close> (from 0) times out.\<close>

definition timeout_at :: "nat \<Rightarrow> platform" where
  "timeout_at k =
     \<lparr>hal_status = (\<lambda>t x. if length t = k then HAL_TIMEOUT else HAL_OK),
      hal_rx_byte = (\<lambda>t. 0), mutex_acquire_status = NO_ERROR\<rparr>"

text \<open>A platform on which \<open>mutex_acquire\<close> reports a failure.\<close>

definition mutex_fails :: platform where
  "mutex_fails = \<lparr>hal_status = (\<lambda>t x. HAL_OK), hal_rx_byte = (\<lambda>t. 0),
                  mutex_acquire_status = ERR_TIMED_OUT\<rparr>"

text \<open>
  A device that is slower than the driver: the write-enable instruction sets the
  write-enable latch, the data of a program sets write-in-progress, and nothing finishes
  while the driver runs. \<open>busy_sr t\<close> is its status register after the transactions
  \<open>t\<close>.
\<close>

fun busy_sr :: "txn list \<Rightarrow> sr_bit set" where
  "busy_sr [] = {}"
| "busy_sr (x # t) =
     (case x of
        HAL_QSPI_Command c \<Rightarrow>
          if Instruction c = WRITE_ENABLE_CMD then {N25Q128A_SR_WREN} else {}
      | HAL_QSPI_Transmit_IT d \<Rightarrow> {N25Q128A_SR_WIP}
      | _ \<Rightarrow> {}) \<union> busy_sr t"

text \<open>
  The platform of that device. A blocking poll reports \<open>HAL_OK\<close> when the masked status
  register equals the match and a timeout otherwise; every other call, the start of a poll
  in interrupt mode among them, reports \<open>HAL_OK\<close>.
\<close>

definition busy_platform :: platform where
  "busy_platform =
     \<lparr>hal_status =
        (\<lambda>t x. case x of
           HAL_QSPI_AutoPolling c cfg \<Rightarrow>
             if busy_sr t \<inter> Mask cfg = Match cfg then HAL_OK else HAL_TIMEOUT
         | _ \<Rightarrow> HAL_OK),
      hal_rx_byte = (\<lambda>t. 0), mutex_acquire_status = NO_ERROR\<rparr>"

text \<open>
  Modelled from the spec: the HAL is not among the sources. Of the polled status wait the
  spec says that "the controller itself repeatedly re-reads status until match or a
  bounded attempt count": a blocking poll that reports \<open>HAL_OK\<close> has seen the match in
  the status register \<open>sr\<close>.
\<close>

definition polls_faithful :: "(txn list \<Rightarrow> sr_bit set) \<Rightarrow> platform \<Rightarrow> bool" where
  "polls_faithful sr pf \<longleftrightarrow>
     (\<forall>t c cfg. hal_status pf t (HAL_QSPI_AutoPolling c cfg) = HAL_OK \<longrightarrow>
        sr t \<inter> Mask cfg = Match cfg)"

definition init_state :: qspi_state where
  "init_state = \<lparr>trace = [], bio_devices = []\<rparr>"

text \<open>The descriptor that a successful initialisation registers for \<open>n25q128a\<close>.\<close>

definition flash_bdev :: bdev_t where
  "flash_bdev =
     \<lparr>name = device_name, block_size = 0x100, block_count = 0x10000, total_size = 0x1000000,
      geometry = [\<lparr>start = 0, size_geo = 0x1000000, erase_size = 12, erase_shift = 12\<rparr>],
      erase_byte = 0xff\<rparr>"

section \<open>Properties\<close>

subsection \<open>The instances\<close>

lemma n25q128a_sizes:
  "N25Q128A_FLASH_SIZE n25q128a = 16777216" "N25Q128A_SECTOR_SIZE n25q128a = 65536"
  "N25Q128A_SUBSECTOR_SIZE n25q128a = 4096" "N25Q128A_PAGE_SIZE n25q128a = 256"
  by (simp_all add: n25q128a_def)

lemma all_ok_ok_platform: "all_ok ok_platform"
  by (simp add: all_ok_def ok_platform_def)

lemma flash_bdev_trim:
  "0 \<le> offset \<Longrightarrow> offset + int len \<le> 16777216 \<Longrightarrow> offset < 16777216 \<Longrightarrow>
     bio_trim_range flash_bdev offset len = len"
  by (simp add: bio_trim_range_def flash_bdev_def)

subsection \<open>Status translation\<close>

lemma hal_error_to_status_NO_ERROR [simp]:
  "hal_error_to_status h = NO_ERROR \<longleftrightarrow> h = HAL_OK"
  by (cases h) simp_all

lemma ssize_of_status_Inl: "e \<noteq> NO_ERROR \<Longrightarrow> ssize_of_status e = Inl e"
  by (cases e) simp_all

lemma ssize_of_hal_error [simp]:
  "h \<noteq> HAL_OK \<Longrightarrow> ssize_of_status (hal_error_to_status h) = Inl (hal_error_to_status h)"
  by (simp add: ssize_of_status_Inl)

text \<open>
  C7. The translator is a function on all status values; its result is one of
  \<open>NO_ERROR\<close>, \<open>ERR_GENERIC\<close>, \<open>ERR_BUSY\<close>, \<open>ERR_TIMED_OUT\<close>; a value that is none of
  the four enumerators goes to \<open>ERR_GENERIC\<close>; and only \<open>HAL_OK\<close> goes to \<open>NO_ERROR\<close>.
\<close>

theorem hal_error_to_status_closed:
  "hal_error_to_status h \<in> {NO_ERROR, ERR_GENERIC, ERR_BUSY, ERR_TIMED_OUT} \<and>
   (h \<notin> {HAL_OK, HAL_ERROR, HAL_BUSY, HAL_TIMEOUT} \<longrightarrow> hal_error_to_status h = ERR_GENERIC) \<and>
   (hal_error_to_status h = NO_ERROR \<longleftrightarrow> h = HAL_OK)"
  by (cases h) simp_all

theorem hal_error_to_status_closed_witness:
  "HAL_OTHER 7 \<notin> {HAL_OK, HAL_ERROR, HAL_BUSY, HAL_TIMEOUT} \<and>
   hal_error_to_status (HAL_OTHER 7) = ERR_GENERIC \<and>
   hal_error_to_status (HAL_OTHER 7) \<noteq> NO_ERROR"
  using hal_error_to_status_closed [of "HAL_OTHER 7"] by simp

subsection \<open>Page program\<close>

lemmas txn_defs = write_enable_txns_def mem_ready_txn_def write_enable_cmd_def
  write_enable_poll_cfg_def mem_ready_cmd_def mem_ready_poll_cfg_def

lemmas prim_defs = qspi_write_enable_unsafe_def qspi_auto_polling_mem_ready_unsafe_def
  qspi_tx_def qspi_cmd_def qspi_rx_def hal_def Let_def

text \<open>
  C2. A page write to an address that is not a multiple of the page size returns
  \<open>ERR_INVALID_ARGS\<close> and leaves the state, hence the transaction record, as it was,
  whatever the buffer and the platform.
\<close>

theorem write_page_misaligned:
  "addr mod N25Q128A_PAGE_SIZE p \<noteq> 0 \<Longrightarrow>
   qspi_write_page_unsafe p pf addr data s = (Inl ERR_INVALID_ARGS, s)"
  by (simp add: qspi_write_page_unsafe_def IS_ALIGNED_def)

theorem write_page_misaligned_witness:
  "257 mod N25Q128A_PAGE_SIZE n25q128a \<noteq> 0 \<and>
   qspi_write_page_unsafe n25q128a ok_platform 257 [1, 2, 3] init_state =
     (Inl ERR_INVALID_ARGS, init_state)"
  using write_page_misaligned [where addr = 257 and p = n25q128a and pf = ok_platform
      and data = "[1, 2, 3]" and s = init_state]
  by (simp add: n25q128a_def)

text \<open>
  A page write to an aligned address issues a prefix of: write-enable instruction, poll
  for the write-enable latch, quad page program with a 24-bit address and one page of
  data, the data transfer, start of the poll for write-in-progress clear; nothing else.
  It returns a byte count only after the whole sequence, and then the page size; it does
  so whenever every transaction reports \<open>HAL_OK\<close>.
\<close>

lemma write_page_sequence:
  assumes "addr mod N25Q128A_PAGE_SIZE p = 0"
  shows "case qspi_write_page_unsafe p pf addr data s of (r, s') \<Rightarrow>
     bio_devices s' = bio_devices s \<and>
     (\<exists>zs. prefix zs (write_page_txns p addr data) \<and> trace s' = trace s @ zs) \<and>
     (\<forall>n. r = Inr n \<longrightarrow>
        n = N25Q128A_PAGE_SIZE p \<and> trace s' = trace s @ write_page_txns p addr data) \<and>
     (all_ok pf \<longrightarrow> r = Inr (N25Q128A_PAGE_SIZE p))"
  using assms
  by (auto simp: qspi_write_page_unsafe_def IS_ALIGNED_def prim_defs txn_defs all_ok_def
      write_page_txns_def page_program_cmd_def)

lemma write_page_sequence_ok_platform:
  "512 mod N25Q128A_PAGE_SIZE n25q128a = 0 \<and>
   (case qspi_write_page_unsafe n25q128a ok_platform 512 [1, 2, 3] init_state of (r, s') \<Rightarrow>
      r = Inr 256 \<and> trace s' = write_page_txns n25q128a 512 [1, 2, 3])"
proof -
  have ok: "all_ok ok_platform" by (simp add: all_ok_def ok_platform_def)
  have al: "512 mod N25Q128A_PAGE_SIZE n25q128a = 0" by (simp add: n25q128a_def)
  have ps: "N25Q128A_PAGE_SIZE n25q128a = 256" by (simp add: n25q128a_def)
  have tr: "trace init_state = []" by (simp add: init_state_def)
  obtain r s' where eq:
    "qspi_write_page_unsafe n25q128a ok_platform 512 [1, 2, 3] init_state = (r, s')"
    by (cases "qspi_write_page_unsafe n25q128a ok_platform 512 [1, 2, 3] init_state")
  note th = write_page_sequence [OF al, where pf = ok_platform and data = "[1, 2, 3]"
        and s = init_state, unfolded eq prod.case]
  from th ok have r: "r = Inr (N25Q128A_PAGE_SIZE n25q128a)" by blast
  with th have "trace s' = trace init_state @ write_page_txns n25q128a 512 [1, 2, 3]" by blast
  with r al show ?thesis unfolding eq prod.case by (simp only: ps tr append_Nil simp_thms)
qed

text \<open>
  The handshake waits for its bit: its poll is a blocking one, so where blocking polls
  are faithful a successful handshake has seen the write-enable latch set.
\<close>

lemma busy_platform_polls_faithful: "polls_faithful busy_sr busy_platform"
  by (simp add: polls_faithful_def busy_platform_def)

lemma write_enable_latch_set:
  assumes "polls_faithful sr pf" and "fst (qspi_write_enable_unsafe pf s) = NO_ERROR"
  shows "N25Q128A_SR_WREN \<in> sr (trace s @ [HAL_QSPI_Command write_enable_cmd])"
proof -
  let ?t = "trace s @ [HAL_QSPI_Command write_enable_cmd]"
  let ?c = "write_enable_cmd\<lparr>Instruction := READ_STATUS_REG_CMD, DataMode := QSPI_DATA_1_LINE\<rparr>"
  from assms(2) have "hal_status pf ?t (HAL_QSPI_AutoPolling ?c write_enable_poll_cfg) = HAL_OK"
    by (simp add: qspi_write_enable_unsafe_def hal_def Let_def split: if_splits)
  with assms(1) have "sr ?t \<inter> Mask write_enable_poll_cfg = Match write_enable_poll_cfg"
    unfolding polls_faithful_def by blast
  then show ?thesis by (auto simp: write_enable_poll_cfg_def)
qed

lemma busy_sr_page: "busy_sr (write_page_txns p addr data) = {N25Q128A_SR_WREN, N25Q128A_SR_WIP}"
  by (auto simp: write_page_txns_def txn_defs)

text \<open>
  C3. The write-enable handshake, the quad page program and the order of the three steps
  are as the lemma on the page-write sequence says. The third step is only started: the
  poll for write-in-progress clear is issued in interrupt mode, no event is waited for,
  and the page size is returned on the status of that start. On the slow device, whose
  blocking polls are faithful, a page write at 512 returns the page size 256 after exactly
  the five transactions while write-in-progress is still set.
\<close>

theorem write_page_returns_in_progress:
  "qspi_write_page_unsafe n25q128a busy_platform 512 [1, 2, 3] init_state =
     (Inr 256, \<lparr>trace = write_page_txns n25q128a 512 [1, 2, 3], bio_devices = []\<rparr>) \<and>
   last (write_page_txns n25q128a 512 [1, 2, 3]) = mem_ready_txn \<and>
   N25Q128A_SR_WIP \<in> busy_sr (write_page_txns n25q128a 512 [1, 2, 3])"
proof -
  have "qspi_write_page_unsafe n25q128a busy_platform 512 [1, 2, 3] init_state =
     (Inr 256, \<lparr>trace = write_page_txns n25q128a 512 [1, 2, 3], bio_devices = []\<rparr>)"
    by (simp add: qspi_write_page_unsafe_def IS_ALIGNED_def prim_defs txn_defs
        write_page_txns_def page_program_cmd_def n25q128a_sizes busy_platform_def
        init_state_def)
  moreover have "last (write_page_txns n25q128a 512 [1, 2, 3]) = mem_ready_txn"
    by (simp add: write_page_txns_def)
  moreover have "N25Q128A_SR_WIP \<in> busy_sr (write_page_txns n25q128a 512 [1, 2, 3])"
    by (simp add: busy_sr_page)
  ultimately show ?thesis by blast
qed

subsection \<open>Erasing one chunk\<close>

text \<open>
  C5. A bulk erase with a nonzero address returns \<open>ERR_INVALID_ARGS\<close> and leaves the
  state as it was: the test comes before the handshake and the erase command.
\<close>

theorem bulk_erase_nonzero_address:
  "block_addr \<noteq> 0 \<Longrightarrow>
   qspi_erase p pf block_addr BULK_ERASE_CMD s = (Inl ERR_INVALID_ARGS, s)"
  by (simp add: qspi_erase_def)

theorem bulk_erase_nonzero_address_witness:
  "(4096 :: nat) \<noteq> 0 \<and>
   qspi_erase n25q128a ok_platform 4096 BULK_ERASE_CMD init_state =
     (Inl ERR_INVALID_ARGS, init_state)"
  using bulk_erase_nonzero_address [where block_addr = 4096 and p = n25q128a
      and pf = ok_platform and s = init_state] by simp

lemma erase_switch_Some:
  "erase_switch p instr = Some (n, m) \<Longrightarrow>
     instr \<in> {SUBSECTOR_ERASE_CMD, SECTOR_ERASE_CMD, BULK_ERASE_CMD} \<and>
     m = (if instr = BULK_ERASE_CMD then QSPI_ADDRESS_NONE else QSPI_ADDRESS_1_LINE)"
  by (cases instr) auto

lemma qspi_erase_ok:
  assumes "all_ok pf" "erase_switch p instr = Some (n, m)" "instr = BULK_ERASE_CMD \<longrightarrow> addr = 0"
  shows "qspi_erase p pf addr instr s =
           (Inr n, s\<lparr>trace := trace s @ erase_chunk_txns (instr, addr)\<rparr>)"
  using assms erase_switch_Some [OF assms(2)]
  by (auto simp: qspi_erase_def all_ok_def prim_defs txn_defs erase_chunk_txns_def
      erase_cmd_of_def)

lemma qspi_erase_Inr:
  "qspi_erase p pf addr instr s = (Inr n, s') \<Longrightarrow> \<exists>m. erase_switch p instr = Some (n, m)"
  by (auto simp: qspi_erase_def prim_defs ssize_of_status_Inl
      split: if_splits option.splits)

subsection \<open>The erase loops when every transaction succeeds\<close>

lemma upt_Suc_shift: "[0..<Suc k] = 0 # map Suc [0..<k]"
  by (simp add: upt_conv_Cons map_Suc_upt del: upt_Suc)

lemma erase_sectors_ok:
  assumes "all_ok pf" "0 < N25Q128A_SECTOR_SIZE p"
  shows "(len - tot) div N25Q128A_SECTOR_SIZE p = k \<Longrightarrow>
     erase_sectors p pf len tot offset s =
       Some (Inr (tot + k * N25Q128A_SECTOR_SIZE p, offset + k * N25Q128A_SECTOR_SIZE p),
             s\<lparr>trace := trace s @
                 concat (map (\<lambda>i. erase_chunk_txns
                    (SECTOR_ERASE_CMD, offset + i * N25Q128A_SECTOR_SIZE p)) [0..<k])\<rparr>)"
proof (induction k arbitrary: tot offset s)
  case 0
  then have "len - tot < N25Q128A_SECTOR_SIZE p"
    using assms(2) by (simp add: div_eq_0_iff)
  then have "\<not> int (N25Q128A_SECTOR_SIZE p) \<le> int len - int tot" by linarith
  then show ?case
    by (subst erase_sectors.simps) simp
next
  case (Suc k)
  let ?S = "N25Q128A_SECTOR_SIZE p"
  from Suc.prems have ge: "?S \<le> len - tot"
    using assms(2) by (metis Zero_not_Suc div_less not_le)
  then have cond: "int ?S \<le> int len - int tot" using assms(2) by linarith
  have next_k: "(len - (tot + ?S)) div ?S = k"
    using Suc.prems ge assms(2) by (simp add: le_div_geq)
  have step: "qspi_erase_sector p pf offset s =
      (Inr ?S, s\<lparr>trace := trace s @ erase_chunk_txns (SECTOR_ERASE_CMD, offset)\<rparr>)"
    unfolding qspi_erase_sector_def by (rule qspi_erase_ok [OF assms(1)]) simp_all
  show ?case
    apply (subst erase_sectors.simps)
    apply (simp only: cond if_True step prod.case sum.case)
    apply (subst Suc.IH [OF next_k])
    apply (simp add: upt_Suc_shift o_def add.assoc del: upt_Suc)
    done
qed

lemma erase_subsectors_ok:
  assumes "all_ok pf" "0 < N25Q128A_SUBSECTOR_SIZE p"
  shows "(len - tot + N25Q128A_SUBSECTOR_SIZE p - 1) div N25Q128A_SUBSECTOR_SIZE p = k \<Longrightarrow>
     erase_subsectors p pf len tot offset s =
       Some (Inr (tot + k * N25Q128A_SUBSECTOR_SIZE p),
             s\<lparr>trace := trace s @
                 concat (map (\<lambda>i. erase_chunk_txns
                    (SUBSECTOR_ERASE_CMD, offset + i * N25Q128A_SUBSECTOR_SIZE p)) [0..<k])\<rparr>)"
proof (induction k arbitrary: tot offset s)
  case 0
  then have "len - tot + N25Q128A_SUBSECTOR_SIZE p - 1 < N25Q128A_SUBSECTOR_SIZE p"
    using assms(2) by (simp add: div_eq_0_iff)
  then have "\<not> tot < len" by linarith
  then show ?case
    by (subst erase_subsectors.simps) simp
next
  case (Suc k)
  let ?U = "N25Q128A_SUBSECTOR_SIZE p"
  have cond: "tot < len"
  proof (rule ccontr)
    assume "\<not> tot < len"
    then have "len - tot + ?U - 1 < ?U" using assms(2) by linarith
    then have "(len - tot + ?U - 1) div ?U = 0" by simp
    with Suc.prems show False by simp
  qed
  have next_k: "(len - (tot + ?U) + ?U - 1) div ?U = k"
  proof (cases "?U \<le> len - tot")
    case True
    then have "len - (tot + ?U) + ?U - 1 = (len - tot + ?U - 1) - ?U" by linarith
    moreover have "?U \<le> len - tot + ?U - 1" using cond by linarith
    ultimately show ?thesis
      using Suc.prems assms(2) by (simp add: le_div_geq)
  next
    case False
    then have a: "len - (tot + ?U) + ?U - 1 < ?U" using assms(2) by linarith
    have "?U \<le> len - tot + ?U - 1" using cond by linarith
    then have "(len - tot + ?U - 1) div ?U = Suc ((len - tot + ?U - 1 - ?U) div ?U)"
      using assms(2) by (simp add: le_div_geq)
    moreover have "len - tot + ?U - 1 - ?U < ?U" using False cond by linarith
    ultimately have "k = 0" using Suc.prems by simp
    with a show ?thesis by simp
  qed
  have step: "qspi_erase_subsector p pf offset s =
      (Inr ?U, s\<lparr>trace := trace s @ erase_chunk_txns (SUBSECTOR_ERASE_CMD, offset)\<rparr>)"
    unfolding qspi_erase_subsector_def by (rule qspi_erase_ok [OF assms(1)]) simp_all
  show ?case
    apply (subst erase_subsectors.simps)
    apply (simp only: cond if_True step prod.case sum.case)
    apply (subst Suc.IH [OF next_k])
    apply (simp add: upt_Suc_shift o_def add.assoc del: upt_Suc)
    done
qed

subsection \<open>The erase loops on any platform\<close>

text \<open>
  With a positive sector size the sector loop returns, whatever the transactions report;
  when it hands over to the subsector loop it has added whole sectors, has not passed the
  length, and less than a sector is left.
\<close>

lemma erase_sectors_general:
  assumes "0 < N25Q128A_SECTOR_SIZE p"
  shows "tot \<le> len \<Longrightarrow>
    \<exists>r s'. erase_sectors p pf len tot off s = Some (r, s') \<and>
      (\<forall>tot' off'. r = Inr (tot', off') \<longrightarrow>
         tot' \<le> len \<and> int len - int tot' < int (N25Q128A_SECTOR_SIZE p) \<and>
         (\<exists>a. tot' = tot + a * N25Q128A_SECTOR_SIZE p))"
proof (induction "len - tot" arbitrary: tot off s rule: less_induct)
  case less
  let ?S = "N25Q128A_SECTOR_SIZE p"
  show ?case
  proof (cases "int ?S \<le> int len - int tot")
    case False
    with less.prems show ?thesis
      by (subst erase_sectors.simps) simp
  next
    case True
    obtain r1 s1 where step: "qspi_erase_sector p pf off s = (r1, s1)"
      by (cases "qspi_erase_sector p pf off s")
    show ?thesis
    proof (cases r1)
      case (Inl e)
      with step True show ?thesis
        by (subst erase_sectors.simps) simp
    next
      case (Inr erased)
      with step have "erased = ?S"
        using qspi_erase_Inr [of p pf off SECTOR_ERASE_CMD s erased s1]
        by (simp add: qspi_erase_sector_def)
      with Inr step have unfold: "erase_sectors p pf len tot off s =
          erase_sectors p pf len (tot + ?S) (off + ?S) s1"
        using True by (subst erase_sectors.simps) simp
      have le: "tot + ?S \<le> len" using True by linarith
      have "len - (tot + ?S) < len - tot" using True assms by linarith
      from less.hyps [OF this le, of "off + ?S" s1]
      obtain r s' where res: "erase_sectors p pf len (tot + ?S) (off + ?S) s1 = Some (r, s')"
        and inv: "\<And>tot' off'. r = Inr (tot', off') \<Longrightarrow>
           tot' \<le> len \<and> int len - int tot' < int ?S \<and> (\<exists>a. tot' = tot + ?S + a * ?S)"
        by blast
      have "\<exists>a. tot' = tot + a * ?S" if "r = Inr (tot', off')" for tot' off'
      proof -
        from inv [OF that] obtain a where "tot' = tot + ?S + a * ?S" by blast
        then have "tot' = tot + Suc a * ?S" by simp
        then show ?thesis by blast
      qed
      with res inv unfold show ?thesis by auto
    qed
  qed
qed

text \<open>
  With a positive subsector size the subsector loop returns as well; a byte count it
  returns has reached the length, by less than one subsector, in whole subsectors.
\<close>

lemma erase_subsectors_general:
  assumes "0 < N25Q128A_SUBSECTOR_SIZE p"
  shows "tot < len + N25Q128A_SUBSECTOR_SIZE p \<Longrightarrow>
    \<exists>r s'. erase_subsectors p pf len tot off s = Some (r, s') \<and>
      (\<forall>n. r = Inr n \<longrightarrow>
         len \<le> n \<and> n < len + N25Q128A_SUBSECTOR_SIZE p \<and>
         (\<exists>b. n = tot + b * N25Q128A_SUBSECTOR_SIZE p))"
proof (induction "len - tot" arbitrary: tot off s rule: less_induct)
  case less
  let ?U = "N25Q128A_SUBSECTOR_SIZE p"
  show ?case
  proof (cases "tot < len")
    case False
    with less.prems show ?thesis
      by (subst erase_subsectors.simps) simp
  next
    case True
    obtain r1 s1 where step: "qspi_erase_subsector p pf off s = (r1, s1)"
      by (cases "qspi_erase_subsector p pf off s")
    show ?thesis
    proof (cases r1)
      case (Inl e)
      with step True show ?thesis
        by (subst erase_subsectors.simps) simp
    next
      case (Inr erased)
      with step have "erased = ?U"
        using qspi_erase_Inr [of p pf off SUBSECTOR_ERASE_CMD s erased s1]
        by (simp add: qspi_erase_subsector_def)
      with Inr step have unfold: "erase_subsectors p pf len tot off s =
          erase_subsectors p pf len (tot + ?U) (off + ?U) s1"
        using True by (subst erase_subsectors.simps) simp
      have lt: "tot + ?U < len + ?U" using True by linarith
      have "len - (tot + ?U) < len - tot" using True assms by linarith
      from less.hyps [OF this lt, of "off + ?U" s1]
      obtain r s' where res: "erase_subsectors p pf len (tot + ?U) (off + ?U) s1 = Some (r, s')"
        and inv: "\<And>n. r = Inr n \<Longrightarrow>
           len \<le> n \<and> n < len + ?U \<and> (\<exists>b. n = tot + ?U + b * ?U)"
        by blast
      have "\<exists>b. n = tot + b * ?U" if "r = Inr n" for n
      proof -
        from inv [OF that] obtain b where "n = tot + ?U + b * ?U" by blast
        then have "n = tot + Suc b * ?U" by simp
        then show ?thesis by blast
      qed
      with res inv unfold show ?thesis by auto
    qed
  qed
qed

subsection \<open>Range erase\<close>

lemma trim_nonzero_offset: "bio_trim_range device offset len \<noteq> 0 \<Longrightarrow> 0 \<le> offset"
  by (simp add: bio_trim_range_def split: if_splits)

lemma spiflash_bdev_erase_ok:
  assumes ok: "all_ok pf" and S: "0 < N25Q128A_SECTOR_SIZE p"
    and U: "0 < N25Q128A_SUBSECTOR_SIZE p"
    and nz: "bio_trim_range device offset len \<noteq> 0"
  shows "spiflash_bdev_erase p pf device offset len s =
     Some (Inr (sum_list (map (chunk_bytes p)
                  (erase_plan p (nat offset) (bio_trim_range device offset len)))),
           s\<lparr>trace := trace s @
               concat (map erase_chunk_txns
                  (erase_plan p (nat offset) (bio_trim_range device offset len)))\<rparr>)"
proof -
  let ?len = "bio_trim_range device offset len"
  let ?S = "N25Q128A_SECTOR_SIZE p" and ?U = "N25Q128A_SUBSECTOR_SIZE p"
  have off: "0 \<le> offset" using nz by (rule trim_nonzero_offset)
  show ?thesis
  proof (cases "?len = N25Q128A_FLASH_SIZE p \<and> offset = 0")
    case True
    have "qspi_bulk_erase p pf s =
        (Inr (N25Q128A_FLASH_SIZE p), s\<lparr>trace := trace s @ erase_chunk_txns (BULK_ERASE_CMD, 0)\<rparr>)"
      unfolding qspi_bulk_erase_def by (rule qspi_erase_ok [OF ok]) simp_all
    moreover from True have "offset = 0"
      and "bio_trim_range device 0 len = N25Q128A_FLASH_SIZE p" by auto
    ultimately show ?thesis
      using nz by (simp add: spiflash_bdev_erase_def erase_plan_def)
  next
    case False
    define k where "k = ?len div ?S"
    define m where "m = (?len - k * ?S + ?U - 1) div ?U"
    have plan: "erase_plan p (nat offset) ?len =
        map (\<lambda>i. (SECTOR_ERASE_CMD, nat offset + i * ?S)) [0..<k] @
        map (\<lambda>j. (SUBSECTOR_ERASE_CMD, nat offset + k * ?S + j * ?U)) [0..<m]"
    proof -
      have "\<not> (?len = N25Q128A_FLASH_SIZE p \<and> nat offset = 0)"
        using False off by auto
      then show ?thesis
        by (simp only: erase_plan_def if_False Let_def k_def m_def)
    qed
    have sec: "erase_sectors p pf ?len 0 (nat offset) s =
        Some (Inr (0 + k * ?S, nat offset + k * ?S),
          s\<lparr>trace := trace s @ concat (map (\<lambda>i. erase_chunk_txns
                (SECTOR_ERASE_CMD, nat offset + i * ?S)) [0..<k])\<rparr>)"
      by (rule erase_sectors_ok [OF ok S]) (simp add: k_def)
    have sub: "erase_subsectors p pf ?len (k * ?S) (nat offset + k * ?S) s1 =
        Some (Inr (k * ?S + m * ?U),
          s1\<lparr>trace := trace s1 @ concat (map (\<lambda>j. erase_chunk_txns
                (SUBSECTOR_ERASE_CMD, nat offset + k * ?S + j * ?U)) [0..<m])\<rparr>)" for s1
      by (rule erase_subsectors_ok [OF ok U]) (simp add: m_def)
    have bytes: "sum_list (map (chunk_bytes p) (erase_plan p (nat offset) ?len)) =
        k * ?S + m * ?U"
      by (simp add: plan o_def sum_list_triv)
    have "spiflash_bdev_erase p pf device offset len s =
        (case erase_sectors p pf ?len 0 (nat offset) s of
           None \<Rightarrow> None
         | Some (Inl e, s1) \<Rightarrow> Some (Inl e, s1)
         | Some (Inr (t, o1), s1) \<Rightarrow> erase_subsectors p pf ?len t o1 s1)"
      by (simp only: spiflash_bdev_erase_def Let_def nz False if_False)
    also have "\<dots> = Some (Inr (k * ?S + m * ?U),
          s\<lparr>trace := trace s @
            concat (map (\<lambda>i. erase_chunk_txns
                (SECTOR_ERASE_CMD, nat offset + i * ?S)) [0..<k]) @
            concat (map (\<lambda>j. erase_chunk_txns
                (SUBSECTOR_ERASE_CMD, nat offset + k * ?S + j * ?U)) [0..<m])\<rparr>)"
      by (simp add: sec sub)
    finally show ?thesis
      by (simp add: bytes) (simp add: plan o_def)
  qed
qed


lemma spiflash_bdev_erase_returns:
  assumes S: "0 < N25Q128A_SECTOR_SIZE p" and U: "0 < N25Q128A_SUBSECTOR_SIZE p"
  shows "\<exists>r s'. spiflash_bdev_erase p pf device offset len s = Some (r, s') \<and>
     (\<forall>n. bio_trim_range device offset len \<noteq> 0 \<and>
          \<not> (bio_trim_range device offset len = N25Q128A_FLASH_SIZE p \<and> offset = 0) \<and>
          r = Inr n \<longrightarrow>
          bio_trim_range device offset len \<le> n \<and>
          n < bio_trim_range device offset len + N25Q128A_SUBSECTOR_SIZE p \<and>
          (\<exists>a b. n = a * N25Q128A_SECTOR_SIZE p + b * N25Q128A_SUBSECTOR_SIZE p))"
proof -
  let ?len = "bio_trim_range device offset len"
  let ?S = "N25Q128A_SECTOR_SIZE p" and ?U = "N25Q128A_SUBSECTOR_SIZE p"
  show ?thesis
  proof (cases "?len = 0 \<or> (?len = N25Q128A_FLASH_SIZE p \<and> offset = 0)")
    case True
    then show ?thesis
      by (cases "qspi_bulk_erase p pf s") (auto simp: spiflash_bdev_erase_def Let_def)
  next
    case False
    then have nz: "?len \<noteq> 0"
      and nb: "\<not> (?len = N25Q128A_FLASH_SIZE p \<and> offset = 0)" by auto
    have unfold: "spiflash_bdev_erase p pf device offset len s =
        (case erase_sectors p pf ?len 0 (nat offset) s of
           None \<Rightarrow> None
         | Some (Inl e, s1) \<Rightarrow> Some (Inl e, s1)
         | Some (Inr (t, o1), s1) \<Rightarrow> erase_subsectors p pf ?len t o1 s1)"
      by (simp only: spiflash_bdev_erase_def Let_def nz nb if_False)
    from erase_sectors_general [OF S, of 0 ?len pf "nat offset" s]
    obtain r1 s1 where sec: "erase_sectors p pf ?len 0 (nat offset) s = Some (r1, s1)"
      and inv1: "\<And>t o1. r1 = Inr (t, o1) \<Longrightarrow>
          t \<le> ?len \<and> (\<exists>a. t = 0 + a * ?S)"
      by auto
    show ?thesis
    proof (cases r1)
      case (Inl e)
      with sec unfold show ?thesis by simp
    next
      case (Inr to)
      obtain t o1 where to: "to = (t, o1)" by (cases to)
      from inv1 [of t o1] Inr to obtain a where le: "t \<le> ?len" and t: "t = a * ?S"
        by auto
      from le U have "t < ?len + ?U" by linarith
      from erase_subsectors_general [OF U this, of pf o1 s1]
      obtain r2 s2 where sub: "erase_subsectors p pf ?len t o1 s1 = Some (r2, s2)"
        and inv2: "\<And>n. r2 = Inr n \<Longrightarrow>
            ?len \<le> n \<and> n < ?len + ?U \<and> (\<exists>b. n = t + b * ?U)"
        by auto
      have res: "spiflash_bdev_erase p pf device offset len s = Some (r2, s2)"
        by (simp add: unfold sec Inr to sub)
      have "\<exists>a b. n = a * ?S + b * ?U" if "r2 = Inr n" for n
        using inv2 [OF that] t by blast
      with res inv2 show ?thesis by auto
    qed
  qed
qed

subsection \<open>Range erase on any platform: the transactions issued\<close>









lemma sum_sector_chunks [simp]:
  "sum_list (map (chunk_bytes p) (sector_chunks p off k)) = k * N25Q128A_SECTOR_SIZE p"
  by (simp add: sector_chunks_def o_def sum_list_triv)

lemma sum_subsector_chunks [simp]:
  "sum_list (map (chunk_bytes p) (subsector_chunks p off k)) = k * N25Q128A_SUBSECTOR_SIZE p"
  by (simp add: subsector_chunks_def o_def sum_list_triv)




text \<open>
  C10. With positive sector and subsector sizes a range erase returns, on any platform.
  When the trimmed length is not 0, the request is not the whole device at offset 0 and a
  byte count comes back, that count is a sum of whole sectors and subsectors, is at least
  the trimmed length and exceeds it by less than one subsector.
\<close>

theorem erase_result_rounded_up:
  assumes "0 < N25Q128A_SECTOR_SIZE p" and "0 < N25Q128A_SUBSECTOR_SIZE p"
  shows "(\<exists>res. spiflash_bdev_erase p pf device offset len s = Some res) \<and>
     (\<forall>n s'. bio_trim_range device offset len \<noteq> 0 \<and>
          \<not> (bio_trim_range device offset len = N25Q128A_FLASH_SIZE p \<and> offset = 0) \<and>
          spiflash_bdev_erase p pf device offset len s = Some (Inr n, s') \<longrightarrow>
          bio_trim_range device offset len \<le> n \<and>
          n < bio_trim_range device offset len + N25Q128A_SUBSECTOR_SIZE p \<and>
          (\<exists>a b. n = a * N25Q128A_SECTOR_SIZE p + b * N25Q128A_SUBSECTOR_SIZE p))"
  using spiflash_bdev_erase_returns [OF assms, of pf device offset len s] by auto

theorem erase_result_rounded_up_witness:
  "0 < N25Q128A_SECTOR_SIZE n25q128a \<and> 0 < N25Q128A_SUBSECTOR_SIZE n25q128a \<and>
   bio_trim_range flash_bdev 65536 100 = 100 \<and>
   (\<exists>s'. spiflash_bdev_erase n25q128a ok_platform flash_bdev 65536 100 init_state =
            Some (Inr 4096, s')) \<and>
   (100 :: nat) \<le> 4096 \<and> (4096 :: nat) < 100 + N25Q128A_SUBSECTOR_SIZE n25q128a \<and>
   (\<exists>a b. (4096 :: nat) =
      a * N25Q128A_SECTOR_SIZE n25q128a + b * N25Q128A_SUBSECTOR_SIZE n25q128a)"
proof -
  have tr: "bio_trim_range flash_bdev 65536 100 = 100"
    by (rule flash_bdev_trim) simp_all
  have S: "0 < N25Q128A_SECTOR_SIZE n25q128a" and U: "0 < N25Q128A_SUBSECTOR_SIZE n25q128a"
    by (simp_all add: n25q128a_sizes)
  have nz: "bio_trim_range flash_bdev 65536 100 \<noteq> 0" by (simp add: tr)
  have plan: "erase_plan n25q128a 65536 100 = [(SUBSECTOR_ERASE_CMD, 65536)]"
    by (simp add: erase_plan_def n25q128a_sizes)
  from spiflash_bdev_erase_ok [OF all_ok_ok_platform S U nz, of init_state]
  obtain s' where run:
    "spiflash_bdev_erase n25q128a ok_platform flash_bdev 65536 100 init_state =
       Some (Inr 4096, s')"
    by (simp add: tr plan n25q128a_sizes)
  from erase_result_rounded_up [OF S U, of ok_platform flash_bdev 65536 100 init_state] run
  have "bio_trim_range flash_bdev 65536 100 \<le> 4096 \<and>
      4096 < bio_trim_range flash_bdev 65536 100 + N25Q128A_SUBSECTOR_SIZE n25q128a \<and>
      (\<exists>a b. (4096 :: nat) =
         a * N25Q128A_SECTOR_SIZE n25q128a + b * N25Q128A_SUBSECTOR_SIZE n25q128a)"
    by (simp add: tr n25q128a_sizes)
  with S U tr run show ?thesis by (simp add: tr)
qed

subsection \<open>Block write\<close>



lemma write_block_txns_0 [simp]: "write_block_txns p block buf 0 = []"
  by (simp add: write_block_txns_def)





lemma flash_bdev_fields:
  "block_count flash_bdev = 65536" "total_size flash_bdev = 16777216"
  "block_size flash_bdev = 256"
  by (simp_all add: flash_bdev_def)




subsection \<open>Trimmed requests\<close>

lemma bio_trim_range_idem:
  "bio_trim_range device offset (bio_trim_range device offset len) =
     bio_trim_range device offset len"
  by (auto simp: bio_trim_range_def)

lemma bio_trim_block_range_idem:
  "bio_trim_block_range device block (bio_trim_block_range device block count) =
     bio_trim_block_range device block count"
  by (auto simp: bio_trim_block_range_def)

text \<open>
  C6. Read, block write and range erase see the request only through its trimmed length
  (or block count): two requests that trim to the same give the same result and state,
  and so do a request and its trimmed form. When the trimmed length is 0 they return 0 and
  leave the state, hence the transaction record, as it was.
\<close>

theorem trimmed_request:
  "(bio_trim_range device offset len = 0 \<longrightarrow>
      spiflash_bdev_read p pf device offset len s = (Inr 0, s) \<and>
      spiflash_bdev_erase p pf device offset len s = Some (Inr 0, s)) \<and>
   (bio_trim_block_range device block count = 0 \<longrightarrow>
      spiflash_bdev_write_block p pf device buf block count s = (Inr 0, s)) \<and>
   (bio_trim_range device offset len = bio_trim_range device offset len' \<longrightarrow>
      spiflash_bdev_read p pf device offset len s =
        spiflash_bdev_read p pf device offset len' s \<and>
      spiflash_bdev_erase p pf device offset len s =
        spiflash_bdev_erase p pf device offset len' s) \<and>
   (bio_trim_block_range device block count = bio_trim_block_range device block count' \<longrightarrow>
      spiflash_bdev_write_block p pf device buf block count s =
        spiflash_bdev_write_block p pf device buf block count' s) \<and>
   spiflash_bdev_read p pf device offset len s =
     spiflash_bdev_read p pf device offset (bio_trim_range device offset len) s \<and>
   spiflash_bdev_erase p pf device offset len s =
     spiflash_bdev_erase p pf device offset (bio_trim_range device offset len) s \<and>
   spiflash_bdev_write_block p pf device buf block count s =
     spiflash_bdev_write_block p pf device buf block
       (bio_trim_block_range device block count) s"
  by (simp add: spiflash_bdev_read_def spiflash_bdev_erase_def spiflash_bdev_write_block_def
      bio_trim_range_idem bio_trim_block_range_idem)

theorem trimmed_request_witness:
  "bio_trim_range flash_bdev 16777216 64 = 0 \<and>
   spiflash_bdev_read n25q128a ok_platform flash_bdev 16777216 64 init_state =
     (Inr 0, init_state) \<and>
   spiflash_bdev_erase n25q128a ok_platform flash_bdev 16777216 64 init_state =
     Some (Inr 0, init_state) \<and>
   bio_trim_block_range flash_bdev 65536 4 = 0 \<and>
   spiflash_bdev_write_block n25q128a ok_platform flash_bdev [] 65536 4 init_state =
     (Inr 0, init_state) \<and>
   bio_trim_range flash_bdev 16777200 64 = bio_trim_range flash_bdev 16777200 16 \<and>
   spiflash_bdev_read n25q128a ok_platform flash_bdev 16777200 64 init_state =
     spiflash_bdev_read n25q128a ok_platform flash_bdev 16777200 16 init_state \<and>
   bio_trim_block_range flash_bdev 65535 4 = bio_trim_block_range flash_bdev 65535 1 \<and>
   spiflash_bdev_write_block n25q128a ok_platform flash_bdev [] 65535 4 init_state =
     spiflash_bdev_write_block n25q128a ok_platform flash_bdev [] 65535 1 init_state"
proof -
  have a: "bio_trim_range flash_bdev 16777216 64 = 0"
    by (simp add: bio_trim_range_def flash_bdev_fields)
  have b: "bio_trim_block_range flash_bdev 65536 4 = 0"
    by (simp add: bio_trim_block_range_def flash_bdev_fields)
  have c: "bio_trim_range flash_bdev 16777200 64 = bio_trim_range flash_bdev 16777200 16"
    by (simp add: bio_trim_range_def flash_bdev_fields)
  have d: "bio_trim_block_range flash_bdev 65535 4 = bio_trim_block_range flash_bdev 65535 1"
    by (simp add: bio_trim_block_range_def flash_bdev_fields)
  from trimmed_request [where device = flash_bdev and offset = 16777216 and len = 64
      and block = 65536 and count = 4 and p = n25q128a and pf = ok_platform
      and s = init_state and buf = "[]"] a b
  have "spiflash_bdev_read n25q128a ok_platform flash_bdev 16777216 64 init_state =
      (Inr 0, init_state) \<and>
    spiflash_bdev_erase n25q128a ok_platform flash_bdev 16777216 64 init_state =
      Some (Inr 0, init_state) \<and>
    spiflash_bdev_write_block n25q128a ok_platform flash_bdev [] 65536 4 init_state =
      (Inr 0, init_state)"
    by blast
  moreover
  from trimmed_request [where device = flash_bdev and offset = 16777200 and len = 64
      and len' = 16 and block = 65535 and count = 4 and count' = 1 and p = n25q128a
      and pf = ok_platform and s = init_state and buf = "[]"] c d
  have "spiflash_bdev_read n25q128a ok_platform flash_bdev 16777200 64 init_state =
      spiflash_bdev_read n25q128a ok_platform flash_bdev 16777200 16 init_state \<and>
    spiflash_bdev_write_block n25q128a ok_platform flash_bdev [] 65535 4 init_state =
      spiflash_bdev_write_block n25q128a ok_platform flash_bdev [] 65535 1 init_state"
    by blast
  ultimately show ?thesis using a b c d by blast
qed

subsection \<open>Initialisation\<close>

lemma log2_uint_less: "0 < n \<Longrightarrow> log2_uint n < n"
proof (induction n rule: log2_uint.induct)
  case (1 n)
  show ?case
  proof (cases "n < 2")
    case True
    with 1 show ?thesis by (simp add: log2_uint.simps)
  next
    case False
    then have "0 < n div 2" by simp
    with 1 False have "log2_uint (n div 2) < n div 2" by simp
    moreover have "log2_uint n = Suc (log2_uint (n div 2))"
      using False by (subst log2_uint.simps) simp
    ultimately show ?thesis using False by linarith
  qed
qed

lemma log2_uint_4096: "log2_uint 4096 = 12"
  by (simp add: log2_uint.simps)

lemma qspi_reset_memory_ok:
  "all_ok pf \<Longrightarrow> \<exists>s'. qspi_reset_memory_unsafe pf s = (NO_ERROR, s') \<and>
     bio_devices s' = bio_devices s"
  by (simp add: qspi_reset_memory_unsafe_def prim_defs all_ok_def)

lemma qspi_dummy_cycles_cfg_ok:
  "all_ok pf \<Longrightarrow> \<exists>s'. qspi_dummy_cycles_cfg_unsafe p pf s = (NO_ERROR, s') \<and>
     bio_devices s' = bio_devices s"
  by (simp add: qspi_dummy_cycles_cfg_unsafe_def prim_defs all_ok_def)

lemma qspi_flash_init_ok:
  assumes "all_ok pf" and "mutex_acquire_status pf = NO_ERROR"
  shows "bio_devices (snd (qspi_flash_init p pf s)) =
     bio_devices s @
     [\<lparr>name = device_name, block_size = N25Q128A_PAGE_SIZE p,
       block_count = N25Q128A_FLASH_SIZE p div N25Q128A_PAGE_SIZE p,
       total_size = N25Q128A_PAGE_SIZE p * (N25Q128A_FLASH_SIZE p div N25Q128A_PAGE_SIZE p),
       geometry = [\<lparr>start = 0, size_geo = N25Q128A_FLASH_SIZE p,
                    erase_size = log2_uint (N25Q128A_SUBSECTOR_SIZE p),
                    erase_shift = log2_uint (N25Q128A_SUBSECTOR_SIZE p)\<rparr>],
       erase_byte = 0xff\<rparr>]"
proof -
  define s2 where "s2 = snd (hal pf (HAL_QSPI_Init \<lparr>ClockPrescaler = 1, FifoThreshold = 4,
                      FlashSize = POSITION_VAL (N25Q128A_FLASH_SIZE p) - 1\<rparr>)
             (snd (hal pf HAL_QSPI_DeInit s)))"
  have b2: "bio_devices s2 = bio_devices s" by (simp add: s2_def hal_def)
  from qspi_reset_memory_ok [OF assms(1), of s2]
  obtain s3 where reset: "qspi_reset_memory_unsafe pf s2 = (NO_ERROR, s3)"
    and b3: "bio_devices s3 = bio_devices s2" by blast
  from qspi_dummy_cycles_cfg_ok [OF assms(1), of p s3]
  obtain s4 where cfg: "qspi_dummy_cycles_cfg_unsafe p pf s3 = (NO_ERROR, s4)"
    and b4: "bio_devices s4 = bio_devices s3" by blast
  have "qspi_flash_init p pf s =
      init_err NO_ERROR (bio_register_device
        ((bio_initialize_bdev device_name (N25Q128A_PAGE_SIZE p)
            (N25Q128A_FLASH_SIZE p div N25Q128A_PAGE_SIZE p)
            [\<lparr>start = 0, size_geo = N25Q128A_FLASH_SIZE p,
              erase_size = log2_uint (N25Q128A_SUBSECTOR_SIZE p),
              erase_shift = log2_uint (N25Q128A_SUBSECTOR_SIZE p)\<rparr>])
          \<lparr>erase_byte := 0xff\<rparr>) s4)"
    using assms reset cfg
    by (simp add: qspi_flash_init_def Let_def all_ok_def s2_def hal_def)
  then show ?thesis
    by (simp add: init_err_def bio_register_device_def bio_initialize_bdev_def b4 b3 b2)
qed

text \<open>
  C8. On the part table \<open>n25q128a\<close>, with every transaction succeeding, initialisation
  registers one descriptor: block size 256 (the page size), 65536 blocks (flash size by
  page size), erase region starting at 0 of the size of the flash, erase byte 0xFF. Its
  \<open>erase_size\<close> is 12, the base-2 logarithm of the subsector size 4096, as is its
  \<open>erase_shift\<close>: the erase unit in bytes is not the subsector size.
\<close>

theorem init_registered_descriptor:
  "bio_devices (snd (qspi_flash_init n25q128a ok_platform init_state)) =
     [\<lparr>name = ''qspi-flash'', block_size = 256, block_count = 65536, total_size = 16777216,
       geometry = [\<lparr>start = 0, size_geo = 16777216, erase_size = 12, erase_shift = 12\<rparr>],
       erase_byte = 255\<rparr>] \<and>
   N25Q128A_PAGE_SIZE n25q128a = 256 \<and> N25Q128A_FLASH_SIZE n25q128a = 16777216 \<and>
   N25Q128A_SUBSECTOR_SIZE n25q128a = 4096 \<and>
   log2_uint (N25Q128A_SUBSECTOR_SIZE n25q128a) \<noteq> N25Q128A_SUBSECTOR_SIZE n25q128a"
proof -
  have "mutex_acquire_status ok_platform = NO_ERROR" by (simp add: ok_platform_def)
  from qspi_flash_init_ok [OF all_ok_ok_platform this, of n25q128a init_state]
  show ?thesis
    by (simp add: n25q128a_sizes log2_uint_4096 init_state_def device_name_def)
qed

text \<open>
  C9. Once \<open>mutex_acquire\<close> has succeeded, initialisation returns \<open>NO_ERROR\<close> whatever
  the transactions report, so a failed de-initialisation, initialisation, reset or
  dummy-cycle configuration cannot be told from the return value. A failed
  \<open>mutex_acquire\<close> is the one thing reported: its status is returned and the state is
  untouched.
\<close>

theorem init_return_value:
  "(mutex_acquire_status pf = NO_ERROR \<longrightarrow> fst (qspi_flash_init p pf s) = NO_ERROR) \<and>
   (mutex_acquire_status pf \<noteq> NO_ERROR \<longrightarrow>
      qspi_flash_init p pf s = (mutex_acquire_status pf, s))"
  by (simp add: qspi_flash_init_def Let_def init_err_def split: prod.splits)

lemma init_deinit_timeout:
  "qspi_flash_init n25q128a (timeout_at 0) init_state =
     (NO_ERROR, \<lparr>trace = [HAL_QSPI_DeInit], bio_devices = []\<rparr>)"
  by (simp add: qspi_flash_init_def Let_def init_err_def hal_def timeout_at_def init_state_def)

theorem init_return_value_witness:
  "mutex_acquire_status (timeout_at 0) = NO_ERROR \<and>
   qspi_flash_init n25q128a (timeout_at 0) init_state =
     (NO_ERROR, \<lparr>trace = [HAL_QSPI_DeInit], bio_devices = []\<rparr>) \<and>
   mutex_acquire_status mutex_fails \<noteq> NO_ERROR \<and>
   qspi_flash_init n25q128a mutex_fails init_state = (ERR_TIMED_OUT, init_state)"
proof -
  have a: "mutex_acquire_status (timeout_at 0) = NO_ERROR" by (simp add: timeout_at_def)
  have b: "mutex_acquire_status mutex_fails = ERR_TIMED_OUT" by (simp add: mutex_fails_def)
  from init_return_value [of mutex_fails n25q128a init_state] b
  have "qspi_flash_init n25q128a mutex_fails init_state = (ERR_TIMED_OUT, init_state)"
    by simp
  moreover from init_return_value [of "timeout_at 0" n25q128a init_state] a
  have "fst (qspi_flash_init n25q128a (timeout_at 0) init_state) = NO_ERROR" by simp
  ultimately show ?thesis using a b init_deinit_timeout by simp
qed

theorem init_return_value_counterexample:
  "fst (qspi_flash_init n25q128a mutex_fails init_state) \<noteq> NO_ERROR"
  by (simp add: qspi_flash_init_def Let_def mutex_fails_def)

end
